theory Spec2Isabelle
  imports Complex_Main "HOL-Library.Multiset" "HOL-Library.Sublist"
begin

section \<open>The tournament state engine of server.js\<close>

text \<open>
  The embedding follows server.js class by class. Conventions:
  \<^item> the counters of a team and the scores are JavaScript numbers that hold integers; they
    are modelled as unbounded \<open>int\<close> (exact below \<open>2^53\<close>, where a double holds every
    integer). The net run rate is a double, held as the rational number that is its exact
    value: the quotient of line 211 is rounded to the nearest double, \<open>toFixed(2)\<close> reads
    the exact value of that double, and \<open>parseFloat\<close> rounds the decimal it prints to the
    nearest double again;
  \<^item> the linked list of \<open>TeamNode\<close> objects is the list of its nodes in \<open>next\<close> order,
    and a reference to a node is its position in that list, so that two references to the
    same node are the same position and a write through one is seen through the other;
  \<^item> every \<open>form\<close> array belongs to one team only (as for team data parsed from a request
    body, or the default \<open>[]\<close>);
  \<^item> every method of \<open>IPLTournament\<close> that can write takes the tournament and returns its
    outcome together with the tournament it leaves behind; a \<open>throw\<close> is the outcome
    \<open>Inl\<close>;
  \<^item> \<open>new Date()\<close> is an argument \<open>now\<close>;
  \<^item> names are strings, and the letters that \<open>toLowerCase\<close> and \<open>toUpperCase\<close> change
    are the ASCII letters.
\<close>

subsection \<open>Strings\<close>

definition toLowerCase_char :: "char \<Rightarrow> char" where
  "toLowerCase_char c =
     (let n = (of_char c :: nat) in if 65 \<le> n \<and> n \<le> 90 then char_of (n + 32) else c)"

definition toUpperCase_char :: "char \<Rightarrow> char" where
  "toUpperCase_char c =
     (let n = (of_char c :: nat) in if 97 \<le> n \<and> n \<le> 122 then char_of (n - 32) else c)"

text \<open>\<open>String.prototype.toLowerCase\<close> and \<open>toUpperCase\<close>, on ASCII letters.\<close>

definition toLowerCase :: "string \<Rightarrow> string" where
  "toLowerCase s = map toLowerCase_char s"

definition toUpperCase :: "string \<Rightarrow> string" where
  "toUpperCase s = map toUpperCase_char s"

text \<open>\<open>s.split(d)\<close> for a one-character separator: the empty string gives one empty word.\<close>

fun split :: "char \<Rightarrow> string \<Rightarrow> string list" where
  "split d [] = [[]]"
| "split d (c # cs) =
     (if c = d then [] # split d cs
      else (case split d cs of [] \<Rightarrow> [[c]] | w # ws \<Rightarrow> (c # w) # ws))"

subsection \<open>TeamNode\<close>

record team =
  name :: string
  shortName :: string
  captain :: string
  homeGround :: string
  color :: string
  points :: int
  netRunRate :: rat
  matchesPlayed :: int
  wins :: int
  losses :: int
  noResults :: int
  runsScored :: int
  runsConceded :: int
  form :: "string list"

text \<open>The object handed to the constructor: every field but the name may be missing.\<close>

record teamData =
  td_name :: string
  td_shortName :: "string option"
  td_captain :: "string option"
  td_homeGround :: "string option"
  td_color :: "string option"
  td_points :: "int option"
  td_netRunRate :: "rat option"
  td_matchesPlayed :: "int option"
  td_wins :: "int option"
  td_losses :: "int option"
  td_noResults :: "int option"
  td_runsScored :: "int option"
  td_runsConceded :: "int option"
  td_form :: "string list option"

text \<open>
  \<open>v || d\<close>: a missing field, the empty string and the number zero are falsy; an array,
  also the empty one, is truthy.
\<close>

definition or_string :: "string option \<Rightarrow> string \<Rightarrow> string" where
  "or_string v d = (case v of None \<Rightarrow> d | Some s \<Rightarrow> if s = [] then d else s)"

definition or_number :: "('a::zero) option \<Rightarrow> 'a \<Rightarrow> 'a" where
  "or_number v d = (case v of None \<Rightarrow> d | Some n \<Rightarrow> if n = 0 then d else n)"

definition or_array :: "'a list option \<Rightarrow> 'a list \<Rightarrow> 'a list" where
  "or_array v d = (case v of None \<Rightarrow> d | Some xs \<Rightarrow> xs)"

text \<open>
  \<open>name.split(' ').map(w => w[0]).join('')\<close>: \<open>w[0]\<close> of an empty word is
  \<open>undefined\<close>, which \<open>join\<close> writes as nothing.
\<close>

definition initials :: "string \<Rightarrow> string" where
  "initials s = concat (map (take 1) (split (CHR '' '') s))"

definition TeamNode :: "teamData \<Rightarrow> team" where
  "TeamNode teamData =
     \<lparr> name = td_name teamData,
       shortName = or_string (td_shortName teamData) (toUpperCase (initials (td_name teamData))),
       captain = or_string (td_captain teamData) [],
       homeGround = or_string (td_homeGround teamData) [],
       color = or_string (td_color teamData) ''#000000'',
       points = or_number (td_points teamData) 0,
       netRunRate = or_number (td_netRunRate teamData) 0,
       matchesPlayed = or_number (td_matchesPlayed teamData) 0,
       wins = or_number (td_wins teamData) 0,
       losses = or_number (td_losses teamData) 0,
       noResults = or_number (td_noResults teamData) 0,
       runsScored = or_number (td_runsScored teamData) 0,
       runsConceded = or_number (td_runsConceded teamData) 0,
       form = or_array (td_form teamData) [] \<rparr>"

subsection \<open>LinkedList\<close>

text \<open>\<open>addTeam\<close> walks to the last node and links the new one behind it.\<close>

definition LinkedList_addTeam :: "team list \<Rightarrow> teamData \<Rightarrow> team \<times> team list" where
  "LinkedList_addTeam nodes teamData =
     (let newNode = TeamNode teamData in (newNode, nodes @ [newNode]))"

text \<open>\<open>findTeam\<close> returns the first node whose lower-cased name is the lower-cased argument.\<close>

fun findTeam :: "team list \<Rightarrow> string \<Rightarrow> nat option" where
  "findTeam [] n = None"
| "findTeam (t # ts) n =
     (if toLowerCase (name t) = toLowerCase n then Some 0
      else map_option Suc (findTeam ts n))"

definition getAllTeams :: "team list \<Rightarrow> team list" where
  "getAllTeams nodes = nodes"

text \<open>
  The comparator of \<open>getStandings\<close>: \<open>b.points - a.points || b.netRunRate - a.netRunRate\<close>.
\<close>

definition compareTeams :: "team \<Rightarrow> team \<Rightarrow> rat" where
  "compareTeams a b =
     (let d = points b - points a in
      if d \<noteq> 0 then of_int d else netRunRate b - netRunRate a)"

text \<open>
  \<open>Array.prototype.sort\<close> is stable, and with a consistent comparator its result is
  determined: it is the result of stable insertion, where an element moves behind those
  the comparator puts strictly before it.
\<close>

fun sort_insert :: "('a \<Rightarrow> 'a \<Rightarrow> rat) \<Rightarrow> 'a \<Rightarrow> 'a list \<Rightarrow> 'a list" where
  "sort_insert cmp x [] = [x]"
| "sort_insert cmp x (y # ys) =
     (if cmp x y \<le> 0 then x # y # ys else y # sort_insert cmp x ys)"

fun array_sort :: "('a \<Rightarrow> 'a \<Rightarrow> rat) \<Rightarrow> 'a list \<Rightarrow> 'a list" where
  "array_sort cmp [] = []"
| "array_sort cmp (x # xs) = sort_insert cmp x (array_sort cmp xs)"

definition LinkedList_getStandings :: "team list \<Rightarrow> team list" where
  "LinkedList_getStandings nodes = array_sort compareTeams (getAllTeams nodes)"

text \<open>
  The order the specification asks of the standings: more points first, and with equal
  points the net run rate that is not lower first.
\<close>

definition ranks_before :: "team \<Rightarrow> team \<Rightarrow> bool" where
  "ranks_before a b \<longleftrightarrow>
     points a > points b \<or> (points a = points b \<and> netRunRate a \<ge> netRunRate b)"

subsection \<open>Stack and Queue\<close>

text \<open>Both hold their items in an array; \<open>push\<close> and \<open>enqueue\<close> write behind the last one.\<close>

definition Stack_push :: "'a list \<Rightarrow> 'a \<Rightarrow> 'a list" where
  "Stack_push items item = items @ [item]"

definition Stack_size :: "'a list \<Rightarrow> nat" where
  "Stack_size items = length items"

definition Stack_getAll :: "'a list \<Rightarrow> 'a list" where
  "Stack_getAll items = rev items"

definition Queue_enqueue :: "'a list \<Rightarrow> 'a \<Rightarrow> 'a list" where
  "Queue_enqueue items item = items @ [item]"

definition Queue_getAll :: "'a list \<Rightarrow> 'a list" where
  "Queue_getAll items = items"

text \<open>
  \<open>xs.slice(0, end)\<close> for an integer \<open>end\<close>: a negative \<open>end\<close> counts from the end of
  the array.
\<close>

definition slice0 :: "'a list \<Rightarrow> int \<Rightarrow> 'a list" where
  "slice0 xs end =
     (let len = int (length xs);
          final = (if end < 0 then max (len + end) 0 else min end len)
      in take (nat final) xs)"

subsection \<open>IPLTournament\<close>

datatype match_result = Result_winner string | Result_tie

record match =
  match_team1 :: string
  match_team2 :: string
  match_team1Score :: int
  match_team2Score :: int
  match_winner :: string
  match_result :: match_result
  match_date :: nat

record 'f tournament =
  teams :: "team list"
  matchHistory :: "match list"
  upcomingMatches :: "'f list"

datatype error = Team_not_found

definition new_IPLTournament :: "'f tournament" where
  "new_IPLTournament = \<lparr> teams = [], matchHistory = [], upcomingMatches = [] \<rparr>"

definition addTeam :: "'f tournament \<Rightarrow> teamData \<Rightarrow> team \<times> 'f tournament" where
  "addTeam tn teamData =
     (case LinkedList_addTeam (teams tn) teamData of
        (newNode, nodes) \<Rightarrow> (newNode, tn\<lparr>teams := nodes\<rparr>))"

definition getTeamStats :: "'f tournament \<Rightarrow> string \<Rightarrow> nat option" where
  "getTeamStats tn n = findTeam (teams tn) n"

definition getStandings :: "'f tournament \<Rightarrow> team list \<times> 'f tournament" where
  "getStandings tn = (LinkedList_getStandings (teams tn), tn)"

text \<open>
  The doubles. \<open>ilog2 n\<close> is the position of the leading bit of \<open>n\<close>, and \<open>exponent a\<close>,
  for a positive \<open>a\<close>, is the \<open>e\<close> with \<open>2 ^ e \<le> a < 2 ^ (e + 1)\<close>.
\<close>

fun ilog2 :: "nat \<Rightarrow> nat" where
  "ilog2 n = (if n < 2 then 0 else Suc (ilog2 (n div 2)))"

definition exponent :: "rat \<Rightarrow> int" where
  "exponent a =
     (if 1 \<le> a then int (ilog2 (nat \<lfloor>a\<rfloor>))
      else - int (Suc (ilog2 (nat \<lceil>1 / a\<rceil> - 1))))"

definition round_half_even :: "rat \<Rightarrow> int" where
  "round_half_even y =
     (let f = \<lfloor>y\<rfloor>; r = y - of_int f
      in if r < 1 / 2 then f else if 1 / 2 < r then f + 1 else if even f then f else f + 1)"

text \<open>
  \<open>float64 x\<close> is the double nearest to \<open>x\<close>: a significand of 53 bits, a tie going to
  the even significand. The range of the exponent is not modelled (no overflow to
  \<open>Infinity\<close>, no subnormal numbers); a quotient of two integers below \<open>2^53\<close> and a
  decimal with two places are within it.
\<close>

definition float64 :: "rat \<Rightarrow> rat" where
  "float64 x =
     (if x = 0 then 0
      else (let e = exponent \<bar>x\<bar>; ulp = 2 powi (e - 52)
            in sgn x * of_int (round_half_even (\<bar>x\<bar> / ulp)) * ulp))"

text \<open>\<open>a / b\<close> for two numbers that hold integers: the double nearest to the quotient.\<close>

definition divide_number :: "int \<Rightarrow> int \<Rightarrow> rat" where
  "divide_number a b = float64 (of_int a / of_int b)"

text \<open>
  \<open>x.toFixed(2)\<close> for a double \<open>x\<close>, as the decimal it prints: the sign is set aside, and
  of the multiples of a hundredth the one nearest to the exact value of \<open>x\<close> is taken, the
  larger one when two are as near.
\<close>

definition toFixed2 :: "rat \<Rightarrow> rat" where
  "toFixed2 x =
     (if x < 0 then - (of_int \<lfloor>(- x) * 100 + 1 / 2\<rfloor> / 100)
      else of_int \<lfloor>x * 100 + 1 / 2\<rfloor> / 100)"

text \<open>\<open>parseFloat\<close> of a decimal: the double nearest to it.\<close>

definition parseFloat :: "rat \<Rightarrow> rat" where
  "parseFloat d = float64 d"

text \<open>
  The rounding of the specification, on the exact quotient: to two decimal places, a
  tie going away from zero.
\<close>

definition round_2dp :: "rat \<Rightarrow> rat" where
  "round_2dp q = sgn q * of_int \<lfloor>\<bar>q\<bar> * 100 + 1 / 2\<rfloor> / 100"

text \<open>
  A write to the node behind the reference \<open>i\<close>. The writes of \<open>recordMatch\<close> are given
  as field updates: \<open>matchesPlayed_update (\<lambda>v. v + 1)\<close> is \<open>matchesPlayed++\<close>.
\<close>

definition write_node :: "nat \<Rightarrow> (team \<Rightarrow> team) \<Rightarrow> team list \<Rightarrow> team list" where
  "write_node i f nodes = nodes[i := f (nodes ! i)]"

text \<open>The right-hand side of lines 211 and 212.\<close>

definition updateNRR :: "team \<Rightarrow> team" where
  "updateNRR t =
     t\<lparr>netRunRate :=
         (if matchesPlayed t > 0
          then parseFloat
                 (toFixed2 (divide_number (runsScored t - runsConceded t) (matchesPlayed t)))
          else 0)\<rparr>"

definition recordMatch ::
  "'f tournament \<Rightarrow> string \<Rightarrow> string \<Rightarrow> int \<Rightarrow> int \<Rightarrow> nat \<Rightarrow> (error + match) \<times> 'f tournament" where
  "recordMatch tn team1 team2 team1Score team2Score now =
     (case (getTeamStats tn team1, getTeamStats tn team2) of
        (Some t1, Some t2) \<Rightarrow>
          (let ns = teams tn;
               ns = write_node t1 (matchesPlayed_update (\<lambda>v. v + 1)) ns;
               ns = write_node t2 (matchesPlayed_update (\<lambda>v. v + 1)) ns;
               ns = write_node t1 (runsScored_update (\<lambda>v. v + team1Score)) ns;
               ns = write_node t2 (runsScored_update (\<lambda>v. v + team2Score)) ns;
               ns = write_node t1 (runsConceded_update (\<lambda>v. v + team2Score)) ns;
               ns = write_node t2 (runsConceded_update (\<lambda>v. v + team1Score)) ns;
               (ns, result, winner) =
                 (if team1Score > team2Score then
                    (let ns = write_node t1 (wins_update (\<lambda>v. v + 1)) ns;
                         ns = write_node t2 (losses_update (\<lambda>v. v + 1)) ns;
                         ns = write_node t1 (points_update (\<lambda>v. v + 2)) ns;
                         ns = write_node t1 (form_update (\<lambda>f. ''W'' # f)) ns;
                         ns = write_node t2 (form_update (\<lambda>f. ''L'' # f)) ns
                     in (ns, Result_winner team1, team1))
                  else if team2Score > team1Score then
                    (let ns = write_node t2 (wins_update (\<lambda>v. v + 1)) ns;
                         ns = write_node t1 (losses_update (\<lambda>v. v + 1)) ns;
                         ns = write_node t2 (points_update (\<lambda>v. v + 2)) ns;
                         ns = write_node t2 (form_update (\<lambda>f. ''W'' # f)) ns;
                         ns = write_node t1 (form_update (\<lambda>f. ''L'' # f)) ns
                     in (ns, Result_winner team2, team2))
                  else
                    (let ns = write_node t1 (noResults_update (\<lambda>v. v + 1)) ns;
                         ns = write_node t2 (noResults_update (\<lambda>v. v + 1)) ns;
                         ns = write_node t1 (points_update (\<lambda>v. v + 1)) ns;
                         ns = write_node t2 (points_update (\<lambda>v. v + 1)) ns;
                         ns = write_node t1 (form_update (\<lambda>f. ''T'' # f)) ns;
                         ns = write_node t2 (form_update (\<lambda>f. ''T'' # f)) ns
                     in (ns, Result_tie, ''Tie'')));
               ns = write_node t1 updateNRR ns;
               ns = write_node t2 updateNRR ns;
               ns = write_node t1 (form_update (\<lambda>f. slice0 f 5)) ns;
               ns = write_node t2 (form_update (\<lambda>f. slice0 f 5)) ns;
               match = \<lparr> match_team1 = team1, match_team2 = team2,
                         match_team1Score = team1Score, match_team2Score = team2Score,
                         match_winner = winner, match_result = result, match_date = now \<rparr>
           in (Inr match,
               tn\<lparr>teams := ns, matchHistory := Stack_push (matchHistory tn) match\<rparr>))
      | _ \<Rightarrow> (Inl Team_not_found, tn))"

text \<open>\<open>getMatchHistory(limit = 50)\<close>: \<open>None\<close> is the call without an argument.\<close>

definition getMatchHistory :: "'f tournament \<Rightarrow> int option \<Rightarrow> match list" where
  "getMatchHistory tn limit =
     slice0 (Stack_getAll (matchHistory tn)) (case limit of None \<Rightarrow> 50 | Some k \<Rightarrow> k)"

definition getPlayoffTeams :: "'f tournament \<Rightarrow> team list" where
  "getPlayoffTeams tn = slice0 (fst (getStandings tn)) 4"

text \<open>
  A client's calls of \<open>recordMatch\<close> one after the other; a call that throws leaves the
  tournament to the next call as it left it.
\<close>

fun recordMatches ::
  "'f tournament \<Rightarrow> (string \<times> string \<times> int \<times> int \<times> nat) list \<Rightarrow> 'f tournament" where
  "recordMatches tn [] = tn"
| "recordMatches tn ((a, b, x, y, now) # calls) =
     recordMatches (snd (recordMatch tn a b x y now)) calls"

subsection \<open>The route POST /api/matches\<close>

text \<open>
  A score of the request body is any JSON value, or is missing. A JSON number is taken to
  be an integer, which \<open>parseInt\<close> gives back as it is.
\<close>

datatype jsval = JUndefined | JNull | JBool bool | JNumber int | JString string

definition is_space :: "char \<Rightarrow> bool" where
  "is_space c = (let n = (of_char c :: nat) in n = 32 \<or> (9 \<le> n \<and> n \<le> 13))"

definition digit_value :: "nat \<Rightarrow> char \<Rightarrow> nat option" where
  "digit_value radix c =
     (let n = (of_char c :: nat);
          v = (if 48 \<le> n \<and> n \<le> 57 then Some (n - 48)
               else if 97 \<le> n \<and> n \<le> 122 then Some (n - 87)
               else if 65 \<le> n \<and> n \<le> 90 then Some (n - 55)
               else None)
      in case v of None \<Rightarrow> None | Some d \<Rightarrow> if d < radix then Some d else None)"

fun leading_digits :: "nat \<Rightarrow> string \<Rightarrow> nat list" where
  "leading_digits radix [] = []"
| "leading_digits radix (c # cs) =
     (case digit_value radix c of None \<Rightarrow> [] | Some d \<Rightarrow> d # leading_digits radix cs)"

text \<open>
  \<open>parseInt\<close> of a string: white space is skipped, then a sign, then \<open>0x\<close> or \<open>0X\<close>
  selects radix sixteen, then the digits up to the first other character are read.
  \<open>None\<close> is \<open>NaN\<close>: no digit was there.
\<close>

definition parseInt_string :: "string \<Rightarrow> int option" where
  "parseInt_string s =
     (let s = dropWhile is_space s;
          (sign, s) = (case s of [] \<Rightarrow> (1, s)
                       | c # cs \<Rightarrow> if c = CHR ''-'' then (- 1, cs)
                                  else if c = CHR ''+'' then (1, cs) else (1, s));
          (radix, s) = (case s of
                          z # x # cs \<Rightarrow>
                            if z = CHR ''0'' \<and> (x = CHR ''x'' \<or> x = CHR ''X'') then (16, cs)
                            else (10, s)
                        | _ \<Rightarrow> (10, s));
          ds = leading_digits radix s
      in if ds = [] then None
         else Some (sign * int (foldl (\<lambda>a d. a * radix + d) 0 ds)))"

definition parseInt :: "jsval \<Rightarrow> int option" where
  "parseInt v = (case v of JNumber n \<Rightarrow> Some n | JString s \<Rightarrow> parseInt_string s | _ \<Rightarrow> None)"

text \<open>\<open>parseInt(v) || 0\<close>: \<open>NaN\<close> and zero are falsy.\<close>

definition parseInt_or_0 :: "jsval \<Rightarrow> int" where
  "parseInt_or_0 v = or_number (parseInt v) 0"

text \<open>The body of the request: a team name is a string or is missing.\<close>

record request =
  req_team1 :: "string option"
  req_team2 :: "string option"
  req_team1Score :: jsval
  req_team2Score :: jsval

datatype response = Status_400 string | Status_200 match string

definition post_api_matches ::
  "'f tournament \<Rightarrow> request \<Rightarrow> nat \<Rightarrow> response \<times> 'f tournament" where
  "post_api_matches tn req now =
     (case (req_team1 req, req_team2 req) of
        (Some team1, Some team2) \<Rightarrow>
          if team1 = [] \<or> team2 = [] then (Status_400 ''Both teams are required'', tn)
          else
            (let score1 = parseInt_or_0 (req_team1Score req);
                 score2 = parseInt_or_0 (req_team2Score req)
             in if score1 = 0 \<and> score2 = 0
                then (Status_400 ''Please enter scores for both teams'', tn)
                else (case recordMatch tn team1 team2 score1 score2 now of
                        (Inr match, tn') \<Rightarrow>
                          (Status_200 match
                             (''Match recorded - '' @ match_winner match @ '' won!''), tn')
                      | (Inl Team_not_found, tn') \<Rightarrow> (Status_400 ''Team not found'', tn')))
      | _ \<Rightarrow> (Status_400 ''Both teams are required'', tn))"

subsection \<open>The start of the server\<close>

text \<open>An object literal of \<open>initializeIPLTeams\<close>: these five fields and no other.\<close>

definition seed_team :: "string \<Rightarrow> string \<Rightarrow> string \<Rightarrow> string \<Rightarrow> string \<Rightarrow> teamData" where
  "seed_team n s c h col =
     \<lparr> td_name = n, td_shortName = Some s, td_captain = Some c, td_homeGround = Some h,
       td_color = Some col, td_points = None, td_netRunRate = None, td_matchesPlayed = None,
       td_wins = None, td_losses = None, td_noResults = None, td_runsScored = None,
       td_runsConceded = None, td_form = None \<rparr>"

definition seed_teams :: "teamData list" where
  "seed_teams =
     [seed_team ''Mumbai Indians'' ''MI'' ''Hardik Pandya'' ''Wankhede Stadium'' ''#004B9B'',
      seed_team ''Chennai Super Kings'' ''CSK'' ''MS Dhoni'' ''M.A. Chidambaram Stadium''
        ''#F9CD05'',
      seed_team ''Royal Challengers Bangalore'' ''RCB'' ''Faf du Plessis''
        ''M. Chinnaswamy Stadium'' ''#EC1C24'',
      seed_team ''Kolkata Knight Riders'' ''KKR'' ''Shreyas Iyer'' ''Eden Gardens'' ''#3A225D'',
      seed_team ''Delhi Capitals'' ''DC'' ''Rishabh Pant'' ''Arun Jaitley Stadium'' ''#17479E'',
      seed_team ''Punjab Kings'' ''PBKS'' ''Shikhar Dhawan'' ''IS Bindra Stadium'' ''#DD1F2D'',
      seed_team ''Rajasthan Royals'' ''RR'' ''Sanju Samson'' ''Sawai Mansingh Stadium''
        ''#E01A85'',
      seed_team ''Sunrisers Hyderabad'' ''SRH'' ''Pat Cummins'' ''Rajiv Gandhi Intl Stadium''
        ''#FF822A'',
      seed_team ''Gujarat Titans'' ''GT'' ''Shubman Gill'' ''Narendra Modi Stadium'' ''#1B2133'',
      seed_team ''Lucknow Super Giants'' ''LSG'' ''KL Rahul'' ''Ekana Cricket Stadium''
        ''#1FB8EA'']"

definition initializeIPLTeams :: "'f tournament \<Rightarrow> 'f tournament" where
  "initializeIPLTeams tn = foldl (\<lambda>tn teamData. snd (addTeam tn teamData)) tn seed_teams"

text \<open>The tournament the server starts with.\<close>

definition tournament :: "unit tournament" where
  "tournament = initializeIPLTeams new_IPLTournament"

subsection \<open>Sample calls\<close>

text \<open>
  A win, a call that names an unknown team, a tie of a team with itself under another
  spelling, and a tie of two teams.
\<close>

definition sample_calls :: "(string \<times> string \<times> int \<times> int \<times> nat) list" where
  "sample_calls =
     [(''Mumbai Indians'', ''chennai super kings'', 180, 150, 1),
      (''Ghost'', ''Mumbai Indians'', 100, 90, 2),
      (''Delhi Capitals'', ''DELHI CAPITALS'', 150, 150, 3),
      (''Punjab Kings'', ''Gujarat Titans'', 150, 150, 4)]"

text \<open>
  A team registered in mid-season, with a form of six entries, and three request bodies:
  one with a score that is not a number, one with no usable score at all, and one whose
  second score is \<open>null\<close>.
\<close>

definition sample_teamData :: teamData where
  "sample_teamData =
     (seed_team ''Alpha'' ''ALP'' ''A. Captain'' ''Alpha Park'' ''#123456'')
       \<lparr> td_points := Some 2, td_netRunRate := Some (1 / 2), td_matchesPlayed := Some 2,
         td_wins := Some 1, td_losses := Some 1, td_runsScored := Some 301,
         td_runsConceded := Some 300,
         td_form := Some [''W'', ''L'', ''W'', ''T'', ''W'', ''L''] \<rparr>"

text \<open>
  A tournament of two teams registered in mid-season: Beta with 39 matches played and
  Alpha with two.
\<close>

definition late_teamData :: teamData where
  "late_teamData =
     (seed_team ''Beta'' ''BET'' ''B. Captain'' ''Beta Park'' ''#654321'')
       \<lparr> td_points := Some 40, td_netRunRate := Some (parseFloat (- 18 / 100)),
         td_matchesPlayed := Some 39, td_wins := Some 20, td_losses := Some 19,
         td_runsScored := Some 5850, td_runsConceded := Some 5857 \<rparr>"

definition late_tournament :: "unit tournament" where
  "late_tournament =
     snd (addTeam (snd (addTeam new_IPLTournament late_teamData)) sample_teamData)"

definition sample_request :: request where
  "sample_request =
     \<lparr> req_team1 = Some ''Mumbai Indians'', req_team2 = Some ''Chennai Super Kings'',
       req_team1Score = JString ''abc'', req_team2Score = JNumber 150 \<rparr>"

definition sample_request_no_scores :: request where
  "sample_request_no_scores =
     \<lparr> req_team1 = Some ''Mumbai Indians'', req_team2 = Some ''Chennai Super Kings'',
       req_team1Score = JString ''abc'', req_team2Score = JUndefined \<rparr>"

definition sample_request_null_score :: request where
  "sample_request_null_score =
     \<lparr> req_team1 = Some ''Mumbai Indians'', req_team2 = Some ''Chennai Super Kings'',
       req_team1Score = JString ''180'', req_team2Score = JNull \<rparr>"

section \<open>Properties\<close>

subsection \<open>Writes through a node reference\<close>

lemma length_write_node [simp]: "length (write_node i f ns) = length ns"
  by (simp add: write_node_def)

lemma nth_write_node_same: "i < length ns \<Longrightarrow> write_node i f ns ! i = f (ns ! i)"
  by (simp add: write_node_def)

lemma nth_write_node_other: "k \<noteq> i \<Longrightarrow> write_node i f ns ! k = ns ! k"
  by (simp add: write_node_def)

lemmas nth_wn = nth_write_node_same nth_write_node_other

subsection \<open>Lookup\<close>

lemma findTeam_bound: "findTeam ns n = Some i \<Longrightarrow> i < length ns"
  by (induction ns arbitrary: i) (auto split: if_splits)

lemma findTeam_lower:
  "toLowerCase a = toLowerCase b \<Longrightarrow> findTeam ns a = findTeam ns b"
  by (induction ns) auto

lemma findTeam_None_iff:
  "findTeam ns n = None \<longleftrightarrow> (\<forall>t \<in> set ns. toLowerCase (name t) \<noteq> toLowerCase n)"
  by (induction ns) auto

lemma getTeamStats_bound: "getTeamStats tn a = Some i \<Longrightarrow> i < length (teams tn)"
  by (simp add: getTeamStats_def findTeam_bound)

subsection \<open>recordMatch: the counters\<close>

lemma recordMatch_not_found:
  "getTeamStats tn a = None \<or> getTeamStats tn b = None \<Longrightarrow>
   recordMatch tn a b x y now = (Inl Team_not_found, tn)"
  by (auto simp: recordMatch_def split: option.splits)

lemma recordMatch_length:
  "length (teams (snd (recordMatch tn a b x y now))) = length (teams tn)"
  by (simp add: recordMatch_def Let_def split: option.splits prod.splits)

lemma updateNRR_sel [simp]:
  "matchesPlayed (updateNRR t) = matchesPlayed t"
  "wins (updateNRR t) = wins t"
  "losses (updateNRR t) = losses t"
  "noResults (updateNRR t) = noResults t"
  "runsScored (updateNRR t) = runsScored t"
  "runsConceded (updateNRR t) = runsConceded t"
  "points (updateNRR t) = points t"
  "form (updateNRR t) = form t"
  "name (updateNRR t) = name t"
  by (simp_all add: updateNRR_def)

lemma recordMatch_balanced_nth:
  assumes f: "getTeamStats tn a = Some i" "getTeamStats tn b = Some j"
    and k: "k < length (teams tn)"
    and b: "matchesPlayed (teams tn ! k) = wins (teams tn ! k) + losses (teams tn ! k) + noResults (teams tn ! k)"
  shows "matchesPlayed (teams (snd (recordMatch tn a b x y now)) ! k) =
         wins (teams (snd (recordMatch tn a b x y now)) ! k) +
         losses (teams (snd (recordMatch tn a b x y now)) ! k) +
         noResults (teams (snd (recordMatch tn a b x y now)) ! k)"
proof -
  have i: "i < length (teams tn)" and j: "j < length (teams tn)"
    using f by (auto simp: getTeamStats_def dest: findTeam_bound)
  consider (w1) "x > y" | (w2) "y > x" | (tie) "x = y" by linarith
  then show ?thesis
  proof cases
    case w1
    with f i j b show ?thesis
      by (cases "k = i"; cases "k = j"; simp add: recordMatch_def Let_def nth_wn)
  next
    case w2
    with f i j b show ?thesis
      by (cases "k = i"; cases "k = j"; simp add: recordMatch_def Let_def nth_wn)
  next
    case tie
    with f i j b show ?thesis
      by (cases "k = i"; cases "k = j"; simp add: recordMatch_def Let_def nth_wn)
  qed
qed

lemma recordMatch_balanced:
  assumes "\<forall>t \<in> set (teams tn). matchesPlayed t = wins t + losses t + noResults t"
  shows "\<forall>t \<in> set (teams (snd (recordMatch tn a b x y now))).
           matchesPlayed t = wins t + losses t + noResults t"
proof (cases "getTeamStats tn a = None \<or> getTeamStats tn b = None")
  case True
  then show ?thesis using assms by (simp add: recordMatch_not_found)
next
  case False
  then obtain i j where f: "getTeamStats tn a = Some i" "getTeamStats tn b = Some j"
    by auto
  show ?thesis
    unfolding all_set_conv_all_nth recordMatch_length
    using assms recordMatch_balanced_nth [OF f] by (simp add: all_set_conv_all_nth)
qed

text \<open>
  C1. Let every registered team have the counters \<open>matchesPlayed\<close>, \<open>wins\<close>, \<open>losses\<close> and
  \<open>noResults\<close> at zero. Then after every call of a sequence of \<open>recordMatch\<close> calls, that
  is after the first \<open>n\<close> calls for every \<open>n\<close>, every team has
  \<open>matchesPlayed = wins + losses + noResults\<close>. The calls are arbitrary: they may name
  unknown teams, or the same team twice.
\<close>

theorem recordMatch_sequence_balanced:
  assumes "\<forall>t \<in> set (teams tn).
             matchesPlayed t = 0 \<and> wins t = 0 \<and> losses t = 0 \<and> noResults t = 0"
  shows "\<forall>t \<in> set (teams (recordMatches tn (take n calls))).
           matchesPlayed t = wins t + losses t + noResults t"
proof -
  have start: "\<forall>t \<in> set (teams tn). matchesPlayed t = wins t + losses t + noResults t"
    using assms by simp
  have "\<forall>t \<in> set (teams (recordMatches tn cs)).
          matchesPlayed t = wins t + losses t + noResults t"
    if "\<forall>t \<in> set (teams tn). matchesPlayed t = wins t + losses t + noResults t"
    for cs and tn :: "'a tournament"
    using that
  proof (induction cs arbitrary: tn)
    case Nil
    then show ?case by simp
  next
    case (Cons c cs)
    obtain a b x y now where c: "c = (a, b, x, y, now)" by (cases c)
    show ?case
      unfolding c recordMatches.simps
      by (rule Cons.IH) (rule recordMatch_balanced [OF Cons.prems])
  qed
  from this [OF start] show ?thesis .
qed

theorem recordMatch_sequence_balanced_witness:
  "list_all (\<lambda>t. matchesPlayed t = 0 \<and> wins t = 0 \<and> losses t = 0 \<and> noResults t = 0)
     (teams tournament) \<and>
   list_all (\<lambda>t. matchesPlayed t = wins t + losses t + noResults t)
     (teams (recordMatches tournament (take 3 sample_calls)))"
proof -
  have zeroed: "\<forall>t \<in> set (teams tournament).
      matchesPlayed t = 0 \<and> wins t = 0 \<and> losses t = 0 \<and> noResults t = 0"
    by code_simp
  have "\<forall>t \<in> set (teams (recordMatches tournament (take 3 sample_calls))).
      matchesPlayed t = wins t + losses t + noResults t"
    by (rule recordMatch_sequence_balanced [OF zeroed])
  with zeroed show ?thesis
    unfolding list_all_iff by (rule conjI)
qed

text \<open>
  C2. When no registered team has the name \<open>team1\<close>, or none has the name \<open>team2\<close>
  (names compared in lower case), \<open>recordMatch\<close> throws \<open>Team not found\<close> and the tournament
  it leaves behind is the tournament it was given: teams, match history and upcoming
  matches.
\<close>

theorem recordMatch_unknown_team:
  assumes "(\<forall>t \<in> set (teams tn). toLowerCase (name t) \<noteq> toLowerCase team1) \<or>
           (\<forall>t \<in> set (teams tn). toLowerCase (name t) \<noteq> toLowerCase team2)"
  shows "recordMatch tn team1 team2 team1Score team2Score now = (Inl Team_not_found, tn)"
  using assms
  by (intro recordMatch_not_found) (simp add: getTeamStats_def findTeam_None_iff)

theorem recordMatch_unknown_team_witness:
  "((\<forall>t \<in> set (teams tournament). toLowerCase (name t) \<noteq> toLowerCase ''Ghost'') \<or>
    (\<forall>t \<in> set (teams tournament). toLowerCase (name t) \<noteq> toLowerCase ''Mumbai Indians'')) \<and>
   recordMatch tournament ''Ghost'' ''Mumbai Indians'' 100 90 2 = (Inl Team_not_found, tournament)"
proof -
  have "\<forall>t \<in> set (teams tournament). toLowerCase (name t) \<noteq> toLowerCase ''Ghost''"
    by code_simp
  then have absent:
    "(\<forall>t \<in> set (teams tournament). toLowerCase (name t) \<noteq> toLowerCase ''Ghost'') \<or>
     (\<forall>t \<in> set (teams tournament). toLowerCase (name t) \<noteq> toLowerCase ''Mumbai Indians'')"
    by (rule disjI1)
  from absent recordMatch_unknown_team [OF absent, of 100 90 2]
  show ?thesis ..
qed

subsection \<open>Standings\<close>

lemma slice0_take: "0 \<le> e \<Longrightarrow> slice0 xs e = take (nat e) xs"
  by (auto simp: slice0_def Let_def min_def)

lemma compareTeams_le:
  "compareTeams a b \<le> 0 \<longleftrightarrow>
     points b < points a \<or> (points a = points b \<and> netRunRate b \<le> netRunRate a)"
  by (auto simp: compareTeams_def Let_def)

lemma mset_sort_insert: "mset (sort_insert cmp x ys) = add_mset x (mset ys)"
  by (induction ys) auto

lemma mset_array_sort: "mset (array_sort cmp xs) = mset xs"
  by (induction xs) (auto simp: mset_sort_insert)

lemma set_sort_insert: "set (sort_insert cmp x ys) = insert x (set ys)"
  by (induction ys) auto

lemma length_array_sort: "length (array_sort cmp xs) = length xs"
  using mset_array_sort [of cmp xs] by (metis size_mset)

lemma ranks_before_trans: "ranks_before a b \<Longrightarrow> ranks_before b c \<Longrightarrow> ranks_before a c"
  by (auto simp: ranks_before_def)

lemma ranks_before_total: "ranks_before a b \<or> ranks_before b a"
  by (auto simp: ranks_before_def)

lemma sorted_sort_insert:
  "sorted_wrt ranks_before ys \<Longrightarrow> sorted_wrt ranks_before (sort_insert compareTeams x ys)"
proof (induction ys)
  case Nil
  then show ?case by simp
next
  case (Cons y ys)
  show ?case
  proof (cases "compareTeams x y \<le> 0")
    case True
    then have xy: "ranks_before x y" by (simp add: compareTeams_le ranks_before_def)
    then have "\<forall>z \<in> set ys. ranks_before x z"
      using Cons.prems by (auto intro: ranks_before_trans)
    with True xy Cons.prems show ?thesis by simp
  next
    case False
    then have "ranks_before y x"
      using ranks_before_total [of x y] by (auto simp: compareTeams_le ranks_before_def)
    with False Cons show ?thesis by (auto simp: set_sort_insert)
  qed
qed

lemma sorted_array_sort: "sorted_wrt ranks_before (array_sort compareTeams xs)"
  by (induction xs) (auto simp: sorted_sort_insert)

text \<open>
  C3. \<open>getStandings\<close> returns the teams of \<open>getAllTeams\<close>, each as often as it is there,
  in an order where an earlier team has more points than a later one, or as many points
  and a net run rate that is not lower. It leaves the tournament as it is, so that a
  second call right after the first returns the same sequence.
\<close>

theorem getStandings_sorted_permutation:
  "mset (fst (getStandings tn)) = mset (getAllTeams (teams tn)) \<and>
   sorted_wrt (\<lambda>a b. points a > points b \<or> (points a = points b \<and> netRunRate a \<ge> netRunRate b))
     (fst (getStandings tn)) \<and>
   fst (getStandings (snd (getStandings tn))) = fst (getStandings tn)"
  using sorted_array_sort [of "teams tn"]
  by (simp add: getStandings_def LinkedList_getStandings_def getAllTeams_def mset_array_sort
      ranks_before_def [abs_def])

theorem getStandings_sorted_permutation_witness:
  "mset (fst (getStandings (recordMatches tournament sample_calls))) =
     mset (getAllTeams (teams (recordMatches tournament sample_calls))) \<and>
   sorted_wrt (\<lambda>a b. points a > points b \<or> (points a = points b \<and> netRunRate a \<ge> netRunRate b))
     (fst (getStandings (recordMatches tournament sample_calls))) \<and>
   fst (getStandings (snd (getStandings (recordMatches tournament sample_calls)))) =
     fst (getStandings (recordMatches tournament sample_calls))"
  by (rule getStandings_sorted_permutation)

text \<open>
  C6. \<open>getPlayoffTeams\<close> returns \<open>min 4 teamCount\<close> teams, where \<open>teamCount\<close> is the number
  of nodes in the list of registered teams, and they are the first teams of the
  standings.
\<close>

theorem getPlayoffTeams_prefix:
  "length (getPlayoffTeams tn) = min 4 (length (teams tn)) \<and>
   prefix (getPlayoffTeams tn) (fst (getStandings tn))"
  by (simp add: getPlayoffTeams_def slice0_take getStandings_def LinkedList_getStandings_def
      getAllTeams_def length_array_sort take_is_prefix)

theorem getPlayoffTeams_prefix_witness:
  "length (teams tournament) = 10 \<and>
   length (getPlayoffTeams tournament) = 4 \<and>
   prefix (getPlayoffTeams tournament) (fst (getStandings tournament))"
proof -
  have ten: "length (teams tournament) = 10" by code_simp
  from ten getPlayoffTeams_prefix [of tournament] show ?thesis by simp
qed

subsection \<open>Match history\<close>

text \<open>
  C8. With \<open>n\<close> matches in the history and a limit \<open>k\<close> that is not negative,
  \<open>getMatchHistory\<close> returns the last \<open>min k n\<close> recorded matches, the most recent one
  first; called without a limit it returns what the limit 50 gives.
\<close>

theorem getMatchHistory_recent:
  assumes "0 \<le> k"
  shows "getMatchHistory tn (Some k) =
           rev (drop (length (matchHistory tn) - min (nat k) (length (matchHistory tn)))
                  (matchHistory tn)) \<and>
         length (getMatchHistory tn (Some k)) = min (nat k) (length (matchHistory tn)) \<and>
         getMatchHistory tn None = getMatchHistory tn (Some 50)"
  using assms
  by (auto simp: getMatchHistory_def slice0_take Stack_getAll_def take_rev min_def)

theorem getMatchHistory_recent_witness:
  "(0::int) \<le> 2 \<and>
   getMatchHistory (recordMatches tournament sample_calls) (Some 2) =
     rev (drop (length (matchHistory (recordMatches tournament sample_calls)) -
                  min (nat 2) (length (matchHistory (recordMatches tournament sample_calls))))
            (matchHistory (recordMatches tournament sample_calls))) \<and>
   length (getMatchHistory (recordMatches tournament sample_calls) (Some 2)) =
     min (nat 2) (length (matchHistory (recordMatches tournament sample_calls))) \<and>
   getMatchHistory (recordMatches tournament sample_calls) None =
     getMatchHistory (recordMatches tournament sample_calls) (Some 50)"
proof -
  have limit: "(0::int) \<le> 2" by simp
  from limit getMatchHistory_recent [OF limit, of "recordMatches tournament sample_calls"]
  show ?thesis ..
qed

subsection \<open>The doubles\<close>

declare ilog2.simps [simp del]

lemma ilog2_bounds: "0 < n \<Longrightarrow> 2 ^ ilog2 n \<le> n \<and> n < 2 * 2 ^ ilog2 n"
proof (induction n rule: ilog2.induct)
  case (1 n)
  show ?case
  proof (cases "n < 2")
    case True
    with "1.prems" have "n = 1" by simp
    then show ?thesis by (simp add: ilog2.simps)
  next
    case False
    then have IH: "2 ^ ilog2 (n div 2) \<le> n div 2 \<and> n div 2 < 2 * 2 ^ ilog2 (n div 2)"
      using "1.IH" by simp
    have step: "ilog2 n = Suc (ilog2 (n div 2))"
      using False by (subst ilog2.simps) simp
    have "n = 2 * (n div 2) + n mod 2" "n mod 2 < 2" by simp_all
    with IH show ?thesis unfolding step by simp linarith
  qed
qed

lemma ilog2_bounds_rat:
  assumes "0 < n"
  shows "(2::rat) ^ ilog2 n \<le> of_nat n" "of_nat n + 1 \<le> (2::rat) * 2 ^ ilog2 n"
proof -
  from ilog2_bounds [OF assms]
  have a: "2 ^ ilog2 n \<le> n" and b: "Suc n \<le> 2 * 2 ^ ilog2 n" by simp_all
  have "(of_nat (2 ^ ilog2 n) :: rat) \<le> of_nat n"
    using a by (simp only: of_nat_le_iff)
  then show "(2::rat) ^ ilog2 n \<le> of_nat n" by simp
  have "(of_nat (Suc n) :: rat) \<le> of_nat (2 * 2 ^ ilog2 n)"
    using b by (simp only: of_nat_le_iff)
  then show "of_nat n + 1 \<le> (2::rat) * 2 ^ ilog2 n" by simp
qed

lemma exponent_bounds:
  assumes "0 < a"
  shows "2 powi exponent a \<le> a \<and> a < 2 powi (exponent a + 1)"
proof (cases "1 \<le> a")
  case True
  define n where "n = nat \<lfloor>a\<rfloor>"
  have fl: "1 \<le> \<lfloor>a\<rfloor>" using True by (simp add: le_floor_iff)
  then have n0: "0 < n" by (simp add: n_def)
  have nn: "(of_nat n :: rat) = of_int \<lfloor>a\<rfloor>"
    using fl by (simp add: n_def)
  have n: "of_nat n \<le> a" "a < of_nat n + 1"
    unfolding nn by linarith+
  have e: "exponent a = int (ilog2 n)"
    using True by (simp add: exponent_def n_def)
  from ilog2_bounds_rat [OF n0] n
  have "(2::rat) ^ ilog2 n \<le> a" "a < 2 * 2 ^ ilog2 n" by linarith+
  then show ?thesis
    unfolding e by (simp add: power_int_add)
next
  case False
  define c where "c = nat \<lceil>1 / a\<rceil>"
  define k where "k = ilog2 (c - 1)"
  have y: "1 < 1 / a" using False assms by simp
  then have "(1::int) < \<lceil>1 / a\<rceil>" by (simp only: less_ceiling_iff of_int_1)
  then have ce: "(2::int) \<le> \<lceil>1 / a\<rceil>" by linarith
  have ci: "int c = \<lceil>1 / a\<rceil>"
    unfolding c_def using ce by (intro nat_0_le) linarith
  with ce have c2: "2 \<le> c" by linarith
  have cc: "(of_nat c :: rat) = of_int \<lceil>1 / a\<rceil>"
    unfolding ci [symmetric] by simp
  have c: "1 / a \<le> of_nat c" "of_nat c - 1 < 1 / a"
    unfolding cc by linarith+
  have e: "exponent a = - int (Suc k)"
    using False by (simp add: exponent_def c_def k_def)
  have c1: "0 < c - 1" using c2 by simp
  have "(of_nat (c - 1) :: rat) = of_nat c - 1" using c2 by (simp add: of_nat_diff)
  with ilog2_bounds_rat [OF c1]
  have "(2::rat) ^ k \<le> of_nat c - 1" "of_nat c \<le> (2::rat) * 2 ^ k"
    by (simp_all add: k_def)
  with c have "1 / a \<le> 2 * 2 ^ k" "2 ^ k < 1 / a" by linarith+
  with assms have "1 / (2 * 2 ^ k) \<le> a" "a < 1 / 2 ^ k"
    by (simp_all add: field_simps)
  moreover have "(2::rat) powi (- int (Suc k)) = 1 / (2 * 2 ^ k)"
    by (simp add: power_int_def nat_add_distrib field_simps)
  moreover have "(2::rat) powi (- int (Suc k) + 1) = 1 / 2 ^ k"
    by (simp add: power_int_def field_simps)
  ultimately show ?thesis
    unfolding e by (simp only:)
qed

lemma round_half_even_near: "\<bar>of_int (round_half_even y) - y\<bar> \<le> 1 / 2"
proof -
  have "of_int \<lfloor>y\<rfloor> \<le> y" "y < of_int \<lfloor>y\<rfloor> + 1" by linarith+
  then show ?thesis
    by (auto simp: round_half_even_def Let_def)
qed

lemma float64_near: "\<bar>float64 x - x\<bar> \<le> \<bar>x\<bar> / 2 ^ 53"
proof (cases "x = 0")
  case True
  then show ?thesis by (simp add: float64_def)
next
  case False
  define e where "e = exponent \<bar>x\<bar>"
  define u :: rat where "u = 2 powi (e - 52)"
  define m where "m = round_half_even (\<bar>x\<bar> / u)"
  have u: "0 < u" by (simp add: u_def)
  have f: "float64 x = sgn x * of_int m * u"
    using False by (simp add: float64_def Let_def e_def u_def m_def)
  have "\<bar>of_int m - \<bar>x\<bar> / u\<bar> \<le> 1 / 2"
    unfolding m_def by (rule round_half_even_near)
  then have "\<bar>of_int m - \<bar>x\<bar> / u\<bar> * u \<le> 1 / 2 * u"
    using u by (simp only: mult_le_cancel_right_pos)
  then have mu: "\<bar>of_int m * u - \<bar>x\<bar>\<bar> \<le> u / 2"
    using u by (simp add: abs_mult [symmetric] abs_if field_simps split: if_splits)
  have "float64 x - x = sgn x * (of_int m * u - \<bar>x\<bar>)"
    unfolding f by (simp add: algebra_simps sgn_if abs_if)
  then have "\<bar>float64 x - x\<bar> = \<bar>of_int m * u - \<bar>x\<bar>\<bar>"
    using False by (simp add: abs_mult sgn_if)
  also note mu
  also have "u / 2 = 2 powi e / 2 ^ 53"
    by (simp add: u_def power_int_diff)
  also have "\<dots> \<le> \<bar>x\<bar> / 2 ^ 53"
    using exponent_bounds [of "\<bar>x\<bar>"] False by (simp add: e_def divide_right_mono)
  finally show ?thesis .
qed

lemma float64_minus: "float64 (- x) = - float64 x"
  by (simp add: float64_def Let_def sgn_minus)

lemma floor_stable:
  fixes B R y dl :: rat
  assumes B: "0 < B" and y: "y = of_int m + R / (2 * B)"
    and R: "1 \<le> R" "R + 1 \<le> 2 * B" and dl: "\<bar>dl\<bar> < 1 / (2 * B)"
  shows "\<lfloor>y + dl\<rfloor> = m" "\<lfloor>y\<rfloor> = m"
proof -
  have B2: "0 < 2 * B" using B by simp
  have lo: "1 / (2 * B) \<le> R / (2 * B)"
    using R(1) B2 by (intro divide_right_mono) simp_all
  have "(R + 1) / (2 * B) \<le> 1"
    using R(2) B2 by (simp only: divide_le_eq_1_pos)
  then have hi: "R / (2 * B) + 1 / (2 * B) \<le> 1"
    by (simp only: add_divide_distrib)
  have p: "0 < 1 / (2 * B)" using B2 by simp
  have "of_int m \<le> y + dl" "y + dl < of_int m + 1"
    using lo hi dl unfolding y by linarith+
  then show "\<lfloor>y + dl\<rfloor> = m" by (rule floor_unique)
  have "of_int m \<le> y" "y < of_int m + 1"
    using lo hi p unfolding y by linarith+
  then show "\<lfloor>y\<rfloor> = m" by (rule floor_unique)
qed

lemma scaled_error_small:
  fixes A B K :: rat
  assumes "0 < B" "0 < K" "200 * A < K"
  shows "A / B / K * 100 < 1 / (2 * B)"
proof -
  have "A / B / K * 100 = (200 * A / K) * (1 / (2 * B))"
    using assms by (simp add: field_simps)
  also have "\<dots> < 1 * (1 / (2 * B))"
    using assms by (intro mult_strict_right_mono) simp_all
  finally show ?thesis by simp
qed

lemma float64_agrees_pos:
  fixes a b :: int
  assumes a: "0 < a" and b: "0 < b" and small: "200 * a < 2 ^ 53"
    and nt: "(200 * a + b) mod (2 * b) \<noteq> 0"
  shows "\<lfloor>float64 (of_int a / of_int b) * 100 + 1 / 2\<rfloor> = \<lfloor>(of_int a / of_int b :: rat) * 100 + 1 / 2\<rfloor>"
    and "0 < float64 (of_int a / of_int b)"
proof -
  define q :: rat where "q = of_int a / of_int b"
  define d where "d = float64 q"
  define m where "m = (200 * a + b) div (2 * b)"
  define r where "r = (200 * a + b) mod (2 * b)"
  define K :: rat where "K = 2 ^ 53"
  have K: "0 < K" by (simp add: K_def)
  have B: "(0::rat) < of_int b" using b by simp
  have q0: "0 < q" using a b by (simp add: q_def)
  have b2: "0 < 2 * b" using b by simp
  have "0 \<le> r" "r < 2 * b"
    unfolding r_def by (rule pos_mod_sign [OF b2], rule pos_mod_bound [OF b2])
  moreover have "r \<noteq> 0" unfolding r_def by (rule nt)
  ultimately have r: "1 \<le> r" "r + 1 \<le> 2 * b" by linarith+
  have rr1: "(1::rat) \<le> of_int r"
    using r(1) by (simp only: of_int_1 [symmetric, where ?'a = rat] of_int_le_iff)
  have "(of_int (r + 1) :: rat) \<le> of_int (2 * b)"
    using r(2) by (simp only: of_int_le_iff)
  then have rr2: "(of_int r :: rat) + 1 \<le> 2 * of_int b" by simp
  have "200 * a + b = m * (2 * b) + r"
    unfolding m_def r_def by (rule div_mult_mod_eq [symmetric])
  then have "(of_int (200 * a + b) :: rat) = of_int (m * (2 * b) + r)"
    by (simp only:)
  then have N: "200 * of_int a + of_int b = of_int m * (2 * of_int b) + (of_int r :: rat)"
    by simp
  have "q * 100 + 1 / 2 = (200 * of_int a + of_int b) / (2 * of_int b)"
    using B by (simp add: q_def field_simps)
  also have "\<dots> = (of_int m * (2 * of_int b) + of_int r) / (2 * of_int b)"
    by (simp only: N)
  also have "\<dots> = of_int m + of_int r / (2 * of_int b)"
    using B by (simp add: add_divide_distrib)
  finally have y: "q * 100 + 1 / 2 = of_int m + of_int r / (2 * of_int b)" .
  have "(of_int (200 * a) :: rat) < of_int (2 ^ 53)"
    using small by (simp only: of_int_less_iff)
  then have s: "200 * (of_int a :: rat) < K" by (simp add: K_def)
  have "\<bar>d - q\<bar> \<le> \<bar>q\<bar> / 2 ^ 53"
    unfolding d_def by (rule float64_near)
  then have err: "\<bar>d - q\<bar> \<le> q / K" using q0 by (simp add: K_def)
  have sm: "q / K * 100 < 1 / (2 * of_int b)"
    unfolding q_def by (rule scaled_error_small [OF B K s])
  have "\<bar>d * 100 - q * 100\<bar> = \<bar>d - q\<bar> * 100"
    by (simp add: abs_if)
  also have "\<dots> \<le> q / K * 100"
    using err by (intro mult_right_mono) simp_all
  finally have close: "\<bar>d * 100 - q * 100\<bar> < 1 / (2 * of_int b)"
    using sm by simp
  have e: "d * 100 + 1 / 2 = (q * 100 + 1 / 2) + (d * 100 - q * 100)" by simp
  have fd: "\<lfloor>d * 100 + 1 / 2\<rfloor> = m"
    unfolding e by (rule floor_stable(1) [OF B y rr1 rr2 close])
  have fq: "\<lfloor>q * 100 + 1 / 2\<rfloor> = m"
    by (rule floor_stable(2) [OF B y rr1 rr2 close])
  show "\<lfloor>float64 (of_int a / of_int b) * 100 + 1 / 2\<rfloor> = \<lfloor>(of_int a / of_int b :: rat) * 100 + 1 / 2\<rfloor>"
    using fd fq unfolding d_def q_def by (simp only:)
  have "q / K < q" using q0 by (simp add: K_def field_simps)
  with err have "0 < d" by (simp add: abs_if split: if_splits)
  then show "0 < float64 (of_int a / of_int b)" unfolding d_def q_def .
qed

lemma toFixed2_round_2dp_pos:
  assumes "0 < q" "0 < d" "\<lfloor>d * 100 + 1 / 2\<rfloor> = \<lfloor>q * 100 + 1 / 2\<rfloor>"
  shows "toFixed2 d = round_2dp q" "toFixed2 (- d) = round_2dp (- q)"
  using assms by (simp_all add: toFixed2_def round_2dp_def)

lemma toFixed2_float64_agrees:
  fixes a b :: int
  assumes b: "0 < b" and small: "200 * \<bar>a\<bar> < 2 ^ 53"
    and nt: "(200 * \<bar>a\<bar> + b) mod (2 * b) \<noteq> 0"
  shows "toFixed2 (float64 (of_int a / of_int b)) = round_2dp (of_int a / of_int b)"
proof -
  consider (pos) "0 < a" | (zero) "a = 0" | (neg) "a < 0" by linarith
  then show ?thesis
  proof cases
    case pos
    with small nt have s: "200 * a < 2 ^ 53" "(200 * a + b) mod (2 * b) \<noteq> 0" by simp_all
    have q0: "(0::rat) < of_int a / of_int b" using pos b by simp
    show ?thesis
      by (rule toFixed2_round_2dp_pos(1) [OF q0 float64_agrees_pos(2,1) [OF pos b s]])
  next
    case zero
    have "\<lfloor>(1::rat) / 2\<rfloor> = 0" by (rule floor_unique) simp_all
    with zero show ?thesis by (simp add: toFixed2_def round_2dp_def float64_def)
  next
    case neg
    then have p: "0 < - a" by simp
    from neg small nt have s: "200 * (- a) < 2 ^ 53" "(200 * (- a) + b) mod (2 * b) \<noteq> 0"
      by simp_all
    have e: "(of_int a / of_int b :: rat) = - (of_int (- a) / of_int b)" by simp
    have q0: "(0::rat) < of_int (- a) / of_int b" using p b by (simp del: of_int_minus)
    show ?thesis
      unfolding e float64_minus
      by (rule toFixed2_round_2dp_pos(2) [OF q0 float64_agrees_pos(2,1) [OF p b s]])
  qed
qed

subsection \<open>recordMatch: the net run rate\<close>

lemma netRunRate_updateNRR:
  "netRunRate (updateNRR t) =
     (if matchesPlayed t > 0
      then parseFloat (toFixed2 (divide_number (runsScored t - runsConceded t) (matchesPlayed t)))
      else 0)"
  by (simp add: updateNRR_def)

lemma recordMatch_netRunRate_nth:
  assumes f: "getTeamStats tn a = Some i" "getTeamStats tn b = Some j"
    and k: "k = i \<or> k = j"
  shows "netRunRate (teams (snd (recordMatch tn a b x y now)) ! k) =
     (if matchesPlayed (teams (snd (recordMatch tn a b x y now)) ! k) > 0
      then parseFloat (toFixed2 (divide_number
              (runsScored (teams (snd (recordMatch tn a b x y now)) ! k)
               - runsConceded (teams (snd (recordMatch tn a b x y now)) ! k))
              (matchesPlayed (teams (snd (recordMatch tn a b x y now)) ! k))))
      else 0)"
proof -
  have i: "i < length (teams tn)" and j: "j < length (teams tn)"
    using f by (auto dest: getTeamStats_bound)
  consider (w1) "x > y" | (w2) "y > x" | (tie) "x = y" by linarith
  then show ?thesis
  proof cases
    case w1
    with f i j k show ?thesis
      by (cases "k = i"; cases "k = j";
          simp add: recordMatch_def Let_def nth_wn netRunRate_updateNRR)
  next
    case w2
    with f i j k show ?thesis
      by (cases "k = i"; cases "k = j";
          simp add: recordMatch_def Let_def nth_wn netRunRate_updateNRR)
  next
    case tie
    with f i j k show ?thesis
      by (cases "k = i"; cases "k = j";
          simp add: recordMatch_def Let_def nth_wn netRunRate_updateNRR)
  qed
qed

text \<open>
  C4, as the code has it. After a call of \<open>recordMatch\<close> that finds both teams, each of
  the two teams has a net run rate that is computed from its own counters as they are
  after the call. It is \<open>0\<close> when \<open>matchesPlayed\<close> is not positive. Otherwise it is the
  double nearest to the decimal that \<open>toFixed(2)\<close> prints for the double quotient
  \<open>(runsScored - runsConceded) / matchesPlayed\<close>. That is the exact quotient rounded to two
  decimal places, a tie going away from zero, and read as a double, whenever the exact
  quotient is not a tie between two hundredths and \<open>200 * \<bar>runsScored - runsConceded\<bar>\<close>
  is below \<open>2^53\<close>.
\<close>

theorem recordMatch_netRunRate:
  assumes "getTeamStats tn team1 = Some i" "getTeamStats tn team2 = Some j"
    and "k = i \<or> k = j"
  shows "let t = teams (snd (recordMatch tn team1 team2 team1Score team2Score now)) ! k;
             runs = runsScored t - runsConceded t;
             played = matchesPlayed t
         in netRunRate t =
              (if 0 < played then parseFloat (toFixed2 (divide_number runs played)) else 0) \<and>
            (0 < played \<and> 200 * \<bar>runs\<bar> < 2 ^ 53 \<and> (200 * \<bar>runs\<bar> + played) mod (2 * played) \<noteq> 0
               \<longrightarrow> netRunRate t = parseFloat (round_2dp (of_int runs / of_int played)))"
proof -
  define t where "t = teams (snd (recordMatch tn team1 team2 team1Score team2Score now)) ! k"
  have stored: "netRunRate t =
      (if 0 < matchesPlayed t
       then parseFloat (toFixed2 (divide_number (runsScored t - runsConceded t) (matchesPlayed t)))
       else 0)"
    unfolding t_def by (rule recordMatch_netRunRate_nth [OF assms])
  have "netRunRate t =
      parseFloat (round_2dp (of_int (runsScored t - runsConceded t) / of_int (matchesPlayed t)))"
    if "0 < matchesPlayed t" "200 * \<bar>runsScored t - runsConceded t\<bar> < 2 ^ 53"
      "(200 * \<bar>runsScored t - runsConceded t\<bar> + matchesPlayed t) mod (2 * matchesPlayed t) \<noteq> 0"
    using stored that toFixed2_float64_agrees [OF that]
    by (simp add: divide_number_def)
  with stored show ?thesis
    unfolding t_def [symmetric] Let_def by blast
qed

theorem recordMatch_netRunRate_witness:
  "getTeamStats late_tournament ''alpha'' = Some 1 \<and>
   getTeamStats late_tournament ''beta'' = Some 0 \<and>
   ((1::nat) = 1 \<or> (1::nat) = 0) \<and>
   matchesPlayed (teams (snd (recordMatch late_tournament ''alpha'' ''beta'' 100 120 7)) ! 1) = 3 \<and>
   runsScored (teams (snd (recordMatch late_tournament ''alpha'' ''beta'' 100 120 7)) ! 1)
     - runsConceded (teams (snd (recordMatch late_tournament ''alpha'' ''beta'' 100 120 7)) ! 1)
     = - 19 \<and>
   (0::int) < 3 \<and> 200 * \<bar>- 19 :: int\<bar> < 2 ^ 53 \<and> (200 * \<bar>- 19 :: int\<bar> + 3) mod (2 * 3) \<noteq> 0 \<and>
   netRunRate (teams (snd (recordMatch late_tournament ''alpha'' ''beta'' 100 120 7)) ! 1) =
     parseFloat (toFixed2 (divide_number (- 19) 3)) \<and>
   netRunRate (teams (snd (recordMatch late_tournament ''alpha'' ''beta'' 100 120 7)) ! 1) =
     parseFloat (round_2dp (of_int (- 19) / of_int 3)) \<and>
   round_2dp (of_int (- 19) / of_int 3) = - 633 / 100"
proof -
  have a: "getTeamStats late_tournament ''alpha'' = Some 1" by code_simp
  have b: "getTeamStats late_tournament ''beta'' = Some 0" by code_simp
  have c: "(1::nat) = 1 \<or> (1::nat) = 0" by simp
  have p: "matchesPlayed (teams (snd (recordMatch late_tournament ''alpha'' ''beta'' 100 120 7)) ! 1) = 3"
    by code_simp
  have r: "runsScored (teams (snd (recordMatch late_tournament ''alpha'' ''beta'' 100 120 7)) ! 1)
     - runsConceded (teams (snd (recordMatch late_tournament ''alpha'' ''beta'' 100 120 7)) ! 1)
     = - 19"
    by code_simp
  have h: "(0::int) < 3" "200 * \<bar>- 19 :: int\<bar> < 2 ^ 53" "(200 * \<bar>- 19 :: int\<bar> + 3) mod (2 * 3) \<noteq> 0"
    by simp_all
  have v: "round_2dp (of_int (- 19) / of_int 3) = - 633 / 100" by code_simp
  have n: "netRunRate (teams (snd (recordMatch late_tournament ''alpha'' ''beta'' 100 120 7)) ! 1) =
       parseFloat (toFixed2 (divide_number (- 19) 3)) \<and>
     netRunRate (teams (snd (recordMatch late_tournament ''alpha'' ''beta'' 100 120 7)) ! 1) =
       parseFloat (round_2dp (of_int (- 19) / of_int 3))"
    using recordMatch_netRunRate [OF a b c, of 100 120 7] h
    unfolding Let_def p r by simp
  from a b c p r h n v show ?thesis by blast
qed

text \<open>
  The claim as the specification words it, with the exact quotient rounded, fails at a
  tie. Beta has played 39 matches; after one more its runs differ by 3 over 40 matches.
  The exact quotient 0.075 lies halfway between 0.07 and 0.08, and rounding half up,
  half to even or half away from zero all give 0.08. The double nearest to 0.075 lies
  below it, so \<open>toFixed(2)\<close> prints 0.07, and that is what the team stores.
\<close>

theorem recordMatch_netRunRate_tie_counterexample:
  "matchesPlayed (teams (snd (recordMatch late_tournament ''Beta'' ''Alpha'' 160 150 6)) ! 0) = 40 \<and>
   runsScored (teams (snd (recordMatch late_tournament ''Beta'' ''Alpha'' 160 150 6)) ! 0)
     - runsConceded (teams (snd (recordMatch late_tournament ''Beta'' ''Alpha'' 160 150 6)) ! 0)
     = 3 \<and>
   round_2dp (3 / 40) = 8 / 100 \<and>
   of_int \<lfloor>(3 / 40 :: rat) * 100 + 1 / 2\<rfloor> / 100 = (8 / 100 :: rat) \<and>
   of_int (round_half_even (3 / 40 * 100)) / 100 = (8 / 100 :: rat) \<and>
   netRunRate (teams (snd (recordMatch late_tournament ''Beta'' ''Alpha'' 160 150 6)) ! 0) =
     parseFloat (7 / 100) \<and>
   netRunRate (teams (snd (recordMatch late_tournament ''Beta'' ''Alpha'' 160 150 6)) ! 0) \<noteq>
     parseFloat (round_2dp (3 / 40)) \<and>
   netRunRate (teams (snd (recordMatch late_tournament ''Beta'' ''Alpha'' 160 150 6)) ! 0) \<noteq>
     round_2dp (3 / 40)"
  by code_simp

subsection \<open>recordMatch: a tie\<close>

lemma recordMatch_tie_distinct:
  assumes f: "getTeamStats tn a = Some i" "getTeamStats tn b = Some j"
    and d: "i \<noteq> j"
  shows "noResults (teams (snd (recordMatch tn a b s s now)) ! i) = noResults (teams tn ! i) + 1"
    "noResults (teams (snd (recordMatch tn a b s s now)) ! j) = noResults (teams tn ! j) + 1"
    "points (teams (snd (recordMatch tn a b s s now)) ! i) = points (teams tn ! i) + 1"
    "points (teams (snd (recordMatch tn a b s s now)) ! j) = points (teams tn ! j) + 1"
    "form (teams (snd (recordMatch tn a b s s now)) ! i) = take 5 (''T'' # form (teams tn ! i))"
    "form (teams (snd (recordMatch tn a b s s now)) ! j) = take 5 (''T'' # form (teams tn ! j))"
    "\<exists>m. fst (recordMatch tn a b s s now) = Inr m \<and> match_winner m = ''Tie''"
proof -
  have i: "i < length (teams tn)" and j: "j < length (teams tn)"
    using f by (auto dest: getTeamStats_bound)
  have d': "j \<noteq> i" using d by simp
  show "noResults (teams (snd (recordMatch tn a b s s now)) ! i) = noResults (teams tn ! i) + 1"
    using f i j d d' by (simp add: recordMatch_def Let_def nth_wn)
  show "noResults (teams (snd (recordMatch tn a b s s now)) ! j) = noResults (teams tn ! j) + 1"
    using f i j d d' by (simp add: recordMatch_def Let_def nth_wn)
  show "points (teams (snd (recordMatch tn a b s s now)) ! i) = points (teams tn ! i) + 1"
    using f i j d d' by (simp add: recordMatch_def Let_def nth_wn)
  show "points (teams (snd (recordMatch tn a b s s now)) ! j) = points (teams tn ! j) + 1"
    using f i j d d' by (simp add: recordMatch_def Let_def nth_wn)
  show "form (teams (snd (recordMatch tn a b s s now)) ! i) = take 5 (''T'' # form (teams tn ! i))"
    using f i j d d' by (simp add: recordMatch_def Let_def nth_wn slice0_take)
  show "form (teams (snd (recordMatch tn a b s s now)) ! j) = take 5 (''T'' # form (teams tn ! j))"
    using f i j d d' by (simp add: recordMatch_def Let_def nth_wn slice0_take)
  show "\<exists>m. fst (recordMatch tn a b s s now) = Inr m \<and> match_winner m = ''Tie''"
    using f by (simp add: recordMatch_def Let_def)
qed

text \<open>
  C5. When \<open>recordMatch\<close> finds two different teams and the scores are equal, each of the
  two teams has \<open>noResults\<close> and \<open>points\<close> one higher than before, its form is the old
  form with \<open>T\<close> put in front, cut to five entries, and the match returned has the winner
  \<open>Tie\<close>.
\<close>

theorem recordMatch_tie:
  assumes "getTeamStats tn team1 = Some i" "getTeamStats tn team2 = Some j" "i \<noteq> j"
    and "team1Score = team2Score"
  shows "let r = recordMatch tn team1 team2 team1Score team2Score now; ns = teams (snd r)
         in noResults (ns ! i) = noResults (teams tn ! i) + 1 \<and>
            noResults (ns ! j) = noResults (teams tn ! j) + 1 \<and>
            points (ns ! i) = points (teams tn ! i) + 1 \<and>
            points (ns ! j) = points (teams tn ! j) + 1 \<and>
            form (ns ! i) = take 5 (''T'' # form (teams tn ! i)) \<and>
            form (ns ! j) = take 5 (''T'' # form (teams tn ! j)) \<and>
            (\<exists>m. fst r = Inr m \<and> match_winner m = ''Tie'')"
  using recordMatch_tie_distinct [OF assms(1-3), of team2Score now] assms(4)
  by (simp add: Let_def)

theorem recordMatch_tie_witness:
  "getTeamStats tournament ''Punjab Kings'' = Some 5 \<and>
   getTeamStats tournament ''Gujarat Titans'' = Some 8 \<and>
   (5::nat) \<noteq> 8 \<and> (150::int) = 150 \<and>
   (let r = recordMatch tournament ''Punjab Kings'' ''Gujarat Titans'' 150 150 4;
        ns = teams (snd r)
    in noResults (ns ! 5) = noResults (teams tournament ! 5) + 1 \<and>
       noResults (ns ! 8) = noResults (teams tournament ! 8) + 1 \<and>
       points (ns ! 5) = points (teams tournament ! 5) + 1 \<and>
       points (ns ! 8) = points (teams tournament ! 8) + 1 \<and>
       form (ns ! 5) = take 5 (''T'' # form (teams tournament ! 5)) \<and>
       form (ns ! 8) = take 5 (''T'' # form (teams tournament ! 8)) \<and>
       (\<exists>m. fst r = Inr m \<and> match_winner m = ''Tie''))"
proof -
  have a: "getTeamStats tournament ''Punjab Kings'' = Some 5" by code_simp
  have b: "getTeamStats tournament ''Gujarat Titans'' = Some 8" by code_simp
  have c: "(5::nat) \<noteq> 8" by simp
  have d: "(150::int) = 150" by simp
  from a b c d recordMatch_tie [OF a b c d, of 4]
  show ?thesis by (intro conjI)
qed

subsection \<open>recordMatch: one team under two names\<close>

lemma recordMatch_same_node:
  assumes f: "getTeamStats tn a = Some i" "getTeamStats tn b = Some i"
  shows "matchesPlayed (teams (snd (recordMatch tn a b x y now)) ! i) = matchesPlayed (teams tn ! i) + 2"
    "runsScored (teams (snd (recordMatch tn a b x y now)) ! i) = runsScored (teams tn ! i) + x + y"
    "runsConceded (teams (snd (recordMatch tn a b x y now)) ! i) = runsConceded (teams tn ! i) + x + y"
proof -
  have i: "i < length (teams tn)"
    using f by (auto dest: getTeamStats_bound)
  show "matchesPlayed (teams (snd (recordMatch tn a b x y now)) ! i) = matchesPlayed (teams tn ! i) + 2"
    using f i by (simp add: recordMatch_def Let_def nth_wn)
  show "runsScored (teams (snd (recordMatch tn a b x y now)) ! i) = runsScored (teams tn ! i) + x + y"
    using f i by (simp add: recordMatch_def Let_def nth_wn)
  show "runsConceded (teams (snd (recordMatch tn a b x y now)) ! i) = runsConceded (teams tn ! i) + x + y"
    using f i by (simp add: recordMatch_def Let_def nth_wn)
qed

text \<open>
  C9. When \<open>team1\<close> and \<open>team2\<close> are equal in lower case and \<open>team1\<close> names a registered
  team, both lookups return the same node, and after \<open>recordMatch\<close> that node has
  \<open>matchesPlayed\<close> two higher, and \<open>runsScored\<close> and \<open>runsConceded\<close> each higher by both
  scores.
\<close>

theorem recordMatch_same_team_twice:
  assumes "toLowerCase team1 = toLowerCase team2" "getTeamStats tn team1 = Some i"
  shows "getTeamStats tn team2 = Some i \<and>
         (let t = teams tn ! i;
              t' = teams (snd (recordMatch tn team1 team2 team1Score team2Score now)) ! i
          in matchesPlayed t' = matchesPlayed t + 2 \<and>
             runsScored t' = runsScored t + team1Score + team2Score \<and>
             runsConceded t' = runsConceded t + team1Score + team2Score)"
proof -
  have same: "getTeamStats tn team2 = Some i"
    using assms findTeam_lower [of team1 team2 "teams tn"] by (simp add: getTeamStats_def)
  from recordMatch_same_node [OF assms(2) same, of team1Score team2Score now] same
  show ?thesis by (simp add: Let_def)
qed

theorem recordMatch_same_team_twice_witness:
  "toLowerCase ''Delhi Capitals'' = toLowerCase ''DELHI CAPITALS'' \<and>
   getTeamStats tournament ''Delhi Capitals'' = Some 4 \<and>
   getTeamStats tournament ''DELHI CAPITALS'' = Some 4 \<and>
   (let t = teams tournament ! 4;
        t' = teams (snd (recordMatch tournament ''Delhi Capitals'' ''DELHI CAPITALS'' 180 150 3)) ! 4
    in matchesPlayed t' = matchesPlayed t + 2 \<and>
       runsScored t' = runsScored t + 180 + 150 \<and>
       runsConceded t' = runsConceded t + 180 + 150)"
proof -
  have a: "toLowerCase ''Delhi Capitals'' = toLowerCase ''DELHI CAPITALS''" by code_simp
  have b: "getTeamStats tournament ''Delhi Capitals'' = Some 4" by code_simp
  from a b recordMatch_same_team_twice [OF a b, of 180 150 3]
  show ?thesis by blast
qed

subsection \<open>Registration and the form\<close>

lemma recordMatch_form_length:
  assumes f: "getTeamStats tn a = Some i" "getTeamStats tn b = Some j"
    and k: "k = i \<or> k = j"
  shows "length (form (teams (snd (recordMatch tn a b x y now)) ! k)) \<le> 5"
proof -
  have i: "i < length (teams tn)" and j: "j < length (teams tn)"
    using f by (auto dest: getTeamStats_bound)
  consider (w1) "x > y" | (w2) "y > x" | (tie) "x = y" by linarith
  then show ?thesis
  proof cases
    case w1
    with f i j k show ?thesis
      by (cases "k = i"; cases "k = j";
          simp add: recordMatch_def Let_def nth_wn slice0_take)
  next
    case w2
    with f i j k show ?thesis
      by (cases "k = i"; cases "k = j";
          simp add: recordMatch_def Let_def nth_wn slice0_take)
  next
    case tie
    with f i j k show ?thesis
      by (cases "k = i"; cases "k = j";
          simp add: recordMatch_def Let_def nth_wn slice0_take)
  qed
qed

text \<open>
  C10. \<open>addTeam\<close> stores the form it is given as it is. For team data whose form has
  more than five entries, the node it returns and links behind the last one has that
  form, longer than five; a later \<open>recordMatch\<close> that finds the node as one of its two
  teams leaves it with a form of at most five entries.
\<close>

theorem addTeam_keeps_form:
  assumes "td_form teamData = Some f" "5 < length f"
    and "getTeamStats (snd (addTeam tn teamData)) team1 = Some i"
    and "getTeamStats (snd (addTeam tn teamData)) team2 = Some j"
    and "i = length (teams tn) \<or> j = length (teams tn)"
  shows "form (fst (addTeam tn teamData)) = f \<and>
         teams (snd (addTeam tn teamData)) = teams tn @ [fst (addTeam tn teamData)] \<and>
         5 < length (form (teams (snd (addTeam tn teamData)) ! length (teams tn))) \<and>
         length (form (teams (snd (recordMatch (snd (addTeam tn teamData))
                                     team1 team2 team1Score team2Score now))
                       ! length (teams tn))) \<le> 5"
proof -
  have k: "length (teams tn) = i \<or> length (teams tn) = j"
    using assms(5) by auto
  have "length (form (teams (snd (recordMatch (snd (addTeam tn teamData))
                                     team1 team2 team1Score team2Score now))
                       ! length (teams tn))) \<le> 5"
    by (rule recordMatch_form_length [OF assms(3,4) k])
  moreover have "form (fst (addTeam tn teamData)) = f"
    "teams (snd (addTeam tn teamData)) = teams tn @ [fst (addTeam tn teamData)]"
    using assms(1)
    by (simp_all add: addTeam_def LinkedList_addTeam_def Let_def TeamNode_def or_array_def)
  ultimately show ?thesis using assms(2) by simp
qed

theorem addTeam_keeps_form_witness:
  "td_form sample_teamData = Some [''W'', ''L'', ''W'', ''T'', ''W'', ''L''] \<and>
   5 < length [''W'', ''L'', ''W'', ''T'', ''W'', ''L''] \<and>
   getTeamStats (snd (addTeam tournament sample_teamData)) ''alpha'' = Some 10 \<and>
   getTeamStats (snd (addTeam tournament sample_teamData)) ''Mumbai Indians'' = Some 0 \<and>
   (10 = length (teams tournament) \<or> 0 = length (teams tournament)) \<and>
   form (fst (addTeam tournament sample_teamData)) = [''W'', ''L'', ''W'', ''T'', ''W'', ''L''] \<and>
   teams (snd (addTeam tournament sample_teamData)) =
     teams tournament @ [fst (addTeam tournament sample_teamData)] \<and>
   5 < length (form (teams (snd (addTeam tournament sample_teamData)) ! length (teams tournament))) \<and>
   length (form (teams (snd (recordMatch (snd (addTeam tournament sample_teamData))
                                     ''alpha'' ''Mumbai Indians'' 180 150 9))
                       ! length (teams tournament))) \<le> 5"
proof -
  have a: "td_form sample_teamData = Some [''W'', ''L'', ''W'', ''T'', ''W'', ''L'']"
    by code_simp
  have b: "5 < length [''W'', ''L'', ''W'', ''T'', ''W'', ''L'']" by simp
  have c: "getTeamStats (snd (addTeam tournament sample_teamData)) ''alpha'' = Some 10"
    by code_simp
  have d: "getTeamStats (snd (addTeam tournament sample_teamData)) ''Mumbai Indians'' = Some 0"
    by code_simp
  have "10 = length (teams tournament)" by code_simp
  then have e: "10 = length (teams tournament) \<or> 0 = length (teams tournament)" ..
  from a b c d e addTeam_keeps_form [OF a b c d e, of 180 150 9]
  show ?thesis by blast
qed

subsection \<open>The route POST /api/matches\<close>

lemma parseInt_or_0_cases:
  "parseInt v = None \<or> parseInt v = Some 0 \<Longrightarrow> parseInt_or_0 v = 0"
  "parseInt v = Some n \<Longrightarrow> parseInt_or_0 v = n"
  by (auto simp: parseInt_or_0_def or_number_def)

lemma post_api_matches_rejects:
  assumes "parseInt_or_0 (req_team1Score req) = 0" "parseInt_or_0 (req_team2Score req) = 0"
  shows "snd (post_api_matches tn req now) = tn"
    "fst (post_api_matches tn req now) = Status_400 ''Both teams are required'' \<or>
     fst (post_api_matches tn req now) = Status_400 ''Please enter scores for both teams''"
  using assms by (auto simp: post_api_matches_def Let_def split: option.splits)

lemma post_api_matches_calls_core:
  assumes "req_team1 req = Some a" "a \<noteq> []" "req_team2 req = Some b" "b \<noteq> []"
    and "parseInt_or_0 (req_team1Score req) \<noteq> 0 \<or> parseInt_or_0 (req_team2Score req) \<noteq> 0"
  shows "post_api_matches tn req now =
     (case recordMatch tn a b (parseInt_or_0 (req_team1Score req))
             (parseInt_or_0 (req_team2Score req)) now of
        (Inr match, tn') \<Rightarrow>
          (Status_200 match (''Match recorded - '' @ match_winner match @ '' won!''), tn')
      | (Inl Team_not_found, tn') \<Rightarrow> (Status_400 ''Team not found'', tn'))"
  using assms by (auto simp: post_api_matches_def Let_def)

text \<open>
  C7, as the route has it. A request in which each of the two scores is not a number, is
  missing or is zero is answered with status 400 and one of the two messages of the
  route's own checks, and the tournament stays as it was: \<open>recordMatch\<close> is not called.
  A request that names both teams and in which one score is not a number or is missing,
  while the other is a number that is not zero, is not rejected: \<open>recordMatch\<close> is called
  with zero for the first and the number for the second, and the route answers with
  what it returns.
\<close>

theorem post_api_matches_scores:
  "((parseInt (req_team1Score req) = None \<or> parseInt (req_team1Score req) = Some 0) \<and>
    (parseInt (req_team2Score req) = None \<or> parseInt (req_team2Score req) = Some 0) \<longrightarrow>
      snd (post_api_matches tn req now) = tn \<and>
      (fst (post_api_matches tn req now) = Status_400 ''Both teams are required'' \<or>
       fst (post_api_matches tn req now) = Status_400 ''Please enter scores for both teams'')) \<and>
   (req_team1 req = Some a \<and> a \<noteq> [] \<and> req_team2 req = Some b \<and> b \<noteq> [] \<and>
    parseInt (req_team1Score req) = None \<and> parseInt (req_team2Score req) = Some n \<and> n \<noteq> 0 \<longrightarrow>
      snd (post_api_matches tn req now) = snd (recordMatch tn a b 0 n now) \<and>
      (\<forall>m. fst (recordMatch tn a b 0 n now) = Inr m \<longrightarrow>
           fst (post_api_matches tn req now) =
             Status_200 m (''Match recorded - '' @ match_winner m @ '' won!''))) \<and>
   (req_team1 req = Some a \<and> a \<noteq> [] \<and> req_team2 req = Some b \<and> b \<noteq> [] \<and>
    parseInt (req_team1Score req) = Some n \<and> n \<noteq> 0 \<and> parseInt (req_team2Score req) = None \<longrightarrow>
      snd (post_api_matches tn req now) = snd (recordMatch tn a b n 0 now) \<and>
      (\<forall>m. fst (recordMatch tn a b n 0 now) = Inr m \<longrightarrow>
           fst (post_api_matches tn req now) =
             Status_200 m (''Match recorded - '' @ match_winner m @ '' won!'')))"
proof (intro conjI impI)
  assume h: "(parseInt (req_team1Score req) = None \<or> parseInt (req_team1Score req) = Some 0) \<and>
    (parseInt (req_team2Score req) = None \<or> parseInt (req_team2Score req) = Some 0)"
  then have z: "parseInt_or_0 (req_team1Score req) = 0" "parseInt_or_0 (req_team2Score req) = 0"
    by (simp_all add: parseInt_or_0_cases)
  show "snd (post_api_matches tn req now) = tn"
    by (rule post_api_matches_rejects [OF z])
  show "fst (post_api_matches tn req now) = Status_400 ''Both teams are required'' \<or>
       fst (post_api_matches tn req now) = Status_400 ''Please enter scores for both teams''"
    by (rule post_api_matches_rejects [OF z])
next
  assume h: "req_team1 req = Some a \<and> a \<noteq> [] \<and> req_team2 req = Some b \<and> b \<noteq> [] \<and>
    parseInt (req_team1Score req) = None \<and> parseInt (req_team2Score req) = Some n \<and> n \<noteq> 0"
  then have s: "parseInt_or_0 (req_team1Score req) = 0" "parseInt_or_0 (req_team2Score req) = n"
    by (simp_all add: parseInt_or_0_cases)
  have p: "post_api_matches tn req now =
     (case recordMatch tn a b 0 n now of
        (Inr match, tn') \<Rightarrow>
          (Status_200 match (''Match recorded - '' @ match_winner match @ '' won!''), tn')
      | (Inl Team_not_found, tn') \<Rightarrow> (Status_400 ''Team not found'', tn'))"
    using post_api_matches_calls_core [of req a b tn now] h s by simp
  show "snd (post_api_matches tn req now) = snd (recordMatch tn a b 0 n now)"
    unfolding p by (simp split: prod.splits sum.splits error.splits)
  show "\<forall>m. fst (recordMatch tn a b 0 n now) = Inr m \<longrightarrow>
           fst (post_api_matches tn req now) =
             Status_200 m (''Match recorded - '' @ match_winner m @ '' won!'')"
    unfolding p by (simp split: prod.splits sum.splits error.splits)
next
  assume h: "req_team1 req = Some a \<and> a \<noteq> [] \<and> req_team2 req = Some b \<and> b \<noteq> [] \<and>
    parseInt (req_team1Score req) = Some n \<and> n \<noteq> 0 \<and> parseInt (req_team2Score req) = None"
  then have s: "parseInt_or_0 (req_team1Score req) = n" "parseInt_or_0 (req_team2Score req) = 0"
    by (simp_all add: parseInt_or_0_cases)
  have p: "post_api_matches tn req now =
     (case recordMatch tn a b n 0 now of
        (Inr match, tn') \<Rightarrow>
          (Status_200 match (''Match recorded - '' @ match_winner match @ '' won!''), tn')
      | (Inl Team_not_found, tn') \<Rightarrow> (Status_400 ''Team not found'', tn'))"
    using post_api_matches_calls_core [of req a b tn now] h s by simp
  show "snd (post_api_matches tn req now) = snd (recordMatch tn a b n 0 now)"
    unfolding p by (simp split: prod.splits sum.splits error.splits)
  show "\<forall>m. fst (recordMatch tn a b n 0 now) = Inr m \<longrightarrow>
           fst (post_api_matches tn req now) =
             Status_200 m (''Match recorded - '' @ match_winner m @ '' won!'')"
    unfolding p by (simp split: prod.splits sum.splits error.splits)
qed

theorem post_api_matches_scores_witness:
  "(parseInt (req_team1Score sample_request_no_scores) = None \<or>
    parseInt (req_team1Score sample_request_no_scores) = Some 0) \<and>
   (parseInt (req_team2Score sample_request_no_scores) = None \<or>
    parseInt (req_team2Score sample_request_no_scores) = Some 0) \<and>
   snd (post_api_matches tournament sample_request_no_scores 1) = tournament \<and>
   (fst (post_api_matches tournament sample_request_no_scores 1) =
      Status_400 ''Both teams are required'' \<or>
    fst (post_api_matches tournament sample_request_no_scores 1) =
      Status_400 ''Please enter scores for both teams'') \<and>
   req_team1 sample_request = Some ''Mumbai Indians'' \<and> ''Mumbai Indians'' \<noteq> [] \<and>
   req_team2 sample_request = Some ''Chennai Super Kings'' \<and> ''Chennai Super Kings'' \<noteq> [] \<and>
   parseInt (req_team1Score sample_request) = None \<and>
   parseInt (req_team2Score sample_request) = Some 150 \<and> (150::int) \<noteq> 0 \<and>
   snd (post_api_matches tournament sample_request 1) =
     snd (recordMatch tournament ''Mumbai Indians'' ''Chennai Super Kings'' 0 150 1) \<and>
   req_team1 sample_request_null_score = Some ''Mumbai Indians'' \<and>
   req_team2 sample_request_null_score = Some ''Chennai Super Kings'' \<and>
   parseInt (req_team1Score sample_request_null_score) = Some 180 \<and> (180::int) \<noteq> 0 \<and>
   parseInt (req_team2Score sample_request_null_score) = None \<and>
   snd (post_api_matches tournament sample_request_null_score 1) =
     snd (recordMatch tournament ''Mumbai Indians'' ''Chennai Super Kings'' 180 0 1)"
proof -
  have n1: "parseInt (req_team1Score sample_request_no_scores) = None" by code_simp
  have n2: "parseInt (req_team2Score sample_request_no_scores) = None" by code_simp
  have a1: "req_team1 sample_request = Some ''Mumbai Indians''" by code_simp
  have a2: "req_team2 sample_request = Some ''Chennai Super Kings''" by code_simp
  have a3: "parseInt (req_team1Score sample_request) = None" by code_simp
  have a4: "parseInt (req_team2Score sample_request) = Some 150" by code_simp
  have b1: "req_team1 sample_request_null_score = Some ''Mumbai Indians''" by code_simp
  have b2: "req_team2 sample_request_null_score = Some ''Chennai Super Kings''" by code_simp
  have b3: "parseInt (req_team1Score sample_request_null_score) = Some 180" by code_simp
  have b4: "parseInt (req_team2Score sample_request_null_score) = None" by code_simp
  have ne: "''Mumbai Indians'' \<noteq> []" "''Chennai Super Kings'' \<noteq> []"
    "(150::int) \<noteq> 0" "(180::int) \<noteq> 0"
    by simp_all
  have r1: "snd (post_api_matches tournament sample_request_no_scores 1) = tournament \<and>
      (fst (post_api_matches tournament sample_request_no_scores 1) =
         Status_400 ''Both teams are required'' \<or>
       fst (post_api_matches tournament sample_request_no_scores 1) =
         Status_400 ''Please enter scores for both teams'')"
    using post_api_matches_scores [of sample_request_no_scores tournament 1] n1 n2 by blast
  have r2: "snd (post_api_matches tournament sample_request 1) =
      snd (recordMatch tournament ''Mumbai Indians'' ''Chennai Super Kings'' 0 150 1)"
    using post_api_matches_scores
      [of sample_request tournament 1 "''Mumbai Indians''" "''Chennai Super Kings''" 150]
      a1 a2 a3 a4 ne by blast
  have r3: "snd (post_api_matches tournament sample_request_null_score 1) =
      snd (recordMatch tournament ''Mumbai Indians'' ''Chennai Super Kings'' 180 0 1)"
    using post_api_matches_scores
      [of sample_request_null_score tournament 1 "''Mumbai Indians''" "''Chennai Super Kings''" 180]
      b1 b2 b3 b4 ne by blast
  from n1 n2 r1 a1 a2 a3 a4 ne r2 b1 b2 b3 b4 r3 show ?thesis by blast
qed

text \<open>
  The claim as the specification words it fails: the request \<open>sample_request\<close>, whose
  first score is the string \<open>abc\<close>, is answered with status 200, and the match is in the
  history, recorded with the score 0.
\<close>

theorem post_api_matches_non_numeric_score_counterexample:
  "parseInt (req_team1Score sample_request) = None \<and>
   fst (post_api_matches tournament sample_request 1) =
     Status_200
       \<lparr> match_team1 = ''Mumbai Indians'', match_team2 = ''Chennai Super Kings'',
         match_team1Score = 0, match_team2Score = 150, match_winner = ''Chennai Super Kings'',
         match_result = Result_winner ''Chennai Super Kings'', match_date = 1 \<rparr>
       ''Match recorded - Chennai Super Kings won!'' \<and>
   Stack_size (matchHistory (snd (post_api_matches tournament sample_request 1))) =
     Stack_size (matchHistory tournament) + 1"
  by code_simp

end
